theory Spec2Isabelle
  imports Complex_Main
begin

section \<open>The Coosto client of tap-coosto (src/tap_coosto/coosto.py)\<close>

text \<open>
  The class \<open>Coosto\<close> logs in, reads the account's rate limit and then walks the
  calendar days from a start date until now, one GET request per day. The model
  below follows the methods of the class one by one. Python values that come out of
  \<open>response.json()\<close> are values of the type \<open>json\<close>; every exception is a value
  of the type \<open>error\<close>, and a method that may raise returns \<open>error + 'a\<close>.

  Time is counted in whole microseconds since the epoch (UTC), the resolution of
  \<open>datetime\<close> and \<open>timedelta\<close>: the clock, every delay and every recorded time is
  an integer number of microseconds. \<open>timedelta(seconds=x)\<close> rounds \<open>x\<close> to the
  nearest microsecond, ties to even. The float division \<open>60 / self.max_requests\<close>
  is the exact quotient (the error of the float is far below the rounding step for any
  limit a service would send), the float comparisons inside \<open>pause.until\<close> are exact,
  and the range limits of \<open>timedelta\<close> and \<open>datetime\<close> are left out.
  \<open>datetime.now()\<close> is the local wall clock and \<open>pause.until\<close> waits on it; the
  model takes the local UTC offset to stay the same while the client runs, so that
  both differ from the UTC clock by a constant, and keeps every time of the pacing on
  the one scale. Calls of the logger change nothing and are left out.
\<close>

subsection \<open>Python values and exceptions\<close>

datatype json =
    JNull
  | JBool bool
  | JNum rat
  | JStr string
  | JArr "json list"
  | JObj "(string \<times> json) list"

datatype error =
    ValueError
  | IndexError
  | TypeError
  | AttributeError
  | ZeroDivisionError
  | JSONDecodeError
  | HTTPStatusError nat

text \<open>Truth value of a Python object, as \<open>not x\<close> and \<open>if x\<close> read it.\<close>

fun truthy :: "json \<Rightarrow> bool" where
  "truthy JNull = False"
| "truthy (JBool b) = b"
| "truthy (JNum q) = (q \<noteq> 0)"
| "truthy (JStr s) = (s \<noteq> [])"
| "truthy (JArr xs) = (xs \<noteq> [])"
| "truthy (JObj kvs) = (kvs \<noteq> [])"

text \<open>
  \<open>d.get(key, default)\<close>. Only a dict has the method: on any other value the
  attribute lookup raises AttributeError. A parsed JSON object has each key once.
\<close>

fun dict_get :: "json \<Rightarrow> string \<Rightarrow> json \<Rightarrow> error + json" where
  "dict_get (JObj kvs) k dflt = Inr (case map_of kvs k of None \<Rightarrow> dflt | Some v \<Rightarrow> v)"
| "dict_get JNull k dflt = Inl AttributeError"
| "dict_get (JBool b) k dflt = Inl AttributeError"
| "dict_get (JNum q) k dflt = Inl AttributeError"
| "dict_get (JStr s) k dflt = Inl AttributeError"
| "dict_get (JArr xs) k dflt = Inl AttributeError"

text \<open>
  \<open>for row in x\<close>: a list gives its elements, a string its characters, a dict its
  keys; None, booleans and numbers are not iterable (TypeError).
\<close>

fun py_iter :: "json \<Rightarrow> error + json list" where
  "py_iter (JArr xs) = Inr xs"
| "py_iter (JStr s) = Inr (map (\<lambda>c. JStr [c]) s)"
| "py_iter (JObj kvs) = Inr (map (\<lambda>kv. JStr (fst kv)) kvs)"
| "py_iter JNull = Inl TypeError"
| "py_iter (JBool b) = Inl TypeError"
| "py_iter (JNum q) = Inl TypeError"

text \<open>
  \<open>60 / x\<close>: true division. A bool is an int in Python (\<open>60 / True = 60.0\<close>);
  None, strings, lists and dicts raise TypeError; zero raises ZeroDivisionError.
\<close>

fun sixty_div :: "json \<Rightarrow> error + rat" where
  "sixty_div (JNum q) = (if q = 0 then Inl ZeroDivisionError else Inr (60 / q))"
| "sixty_div (JBool b) = (if b then Inr 60 else Inl ZeroDivisionError)"
| "sixty_div JNull = Inl TypeError"
| "sixty_div (JStr s) = Inl TypeError"
| "sixty_div (JArr xs) = Inl TypeError"
| "sixty_div (JObj kvs) = Inl TypeError"

text \<open>Rounding to the nearest integer, a tie to the even neighbour.\<close>

definition round_half_even :: "rat \<Rightarrow> int" where
  "round_half_even x =
     (let f = \<lfloor>x\<rfloor>;
          r = x - of_int f
      in if r < 1 / 2 then f
         else if 1 / 2 < r then f + 1
         else if even f then f else f + 1)"

text \<open>
  \<open>timedelta(seconds=x)\<close>, in microseconds: the fractional microseconds are rounded
  to the nearest microsecond, round-half-to-even.
\<close>

definition timedelta :: "rat \<Rightarrow> int" where
  "timedelta seconds = round_half_even (seconds * 1000000)"

subsection \<open>HTTP, the clock and the state of a run\<close>

datatype verb = GET | POST

record request =
  meth :: verb
  address :: string
  form :: "(string \<times> string) list"
  cookie :: "(string \<times> json) list"

text \<open>A response: its status code and its body, \<open>None\<close> when the body is not JSON.\<close>

record response =
  status_code :: nat
  content :: "json option"

text \<open>
  \<open>response.raise_for_status()\<close> of httpx: a response outside 2xx raises
  HTTPStatusError (redirects are not followed, so a 3xx reaches the caller as it is).
\<close>

definition is_success :: "nat \<Rightarrow> bool" where
  "is_success code = (200 \<le> code \<and> code < 300)"

definition raise_for_status :: "response \<Rightarrow> error + unit" where
  "raise_for_status r =
     (if is_success (status_code r) then Inr () else Inl (HTTPStatusError (status_code r)))"

text \<open>\<open>response.json()\<close>.\<close>

definition json_body :: "response \<Rightarrow> error + json" where
  "json_body r = (case content r of None \<Rightarrow> Inl JSONDecodeError | Some j \<Rightarrow> Inr j)"

text \<open>
  What the program does not decide: the remote service and the passing of time.
  Requests are numbered in the order they are sent, from 0. For the request number
  \<open>k\<close>, \<open>reply w k\<close> is the server's answer, \<open>idle w k\<close> the time that passes
  before the program reaches the pacing check of that request (the consumer of the
  generator works in between), \<open>lag w k\<close> the time from there to the moment the
  request leaves, and \<open>latency w k\<close> the time until the program reads the clock
  again after the response, all three in microseconds. \<open>utcoffset w d\<close> is the
  local zone's offset from UTC, in
  seconds, at local midnight of the day with proleptic Gregorian ordinal \<open>d\<close>.
\<close>

record world =
  reply :: "nat \<Rightarrow> request \<Rightarrow> response"
  idle :: "nat \<Rightarrow> int"
  lag :: "nat \<Rightarrow> int"
  latency :: "nat \<Rightarrow> int"
  utcoffset :: "int \<Rightarrow> int"

text \<open>A clock that never runs backwards.\<close>

definition monotone_clock :: "world \<Rightarrow> bool" where
  "monotone_clock w = (\<forall>k. 0 \<le> idle w k \<and> 0 \<le> lag w k \<and> 0 \<le> latency w k)"

text \<open>
  The attributes of the \<open>Coosto\<close> object, and with them the two things of the
  process a claim can observe: the clock and the requests sent so far, each with the
  time it left. \<open>max_requests = None\<close> is an object without that attribute;
  \<open>next_request = None\<close> is the attribute holding Python's None.
\<close>

record state =
  username :: string
  password :: string
  cookies :: "(string \<times> json) list"
  max_requests :: "json option"
  next_request :: "int option"
  clock :: int
  sent :: "(int \<times> request) list"

definition elapse :: "world \<Rightarrow> state \<Rightarrow> state" where
  "elapse w s = s\<lparr>clock := clock s + idle w (length (sent s))\<rparr>"

text \<open>\<open>pause.until(t)\<close>: sleeps while the clock is before \<open>t\<close>.\<close>

definition pause_until :: "int \<Rightarrow> state \<Rightarrow> state" where
  "pause_until t s = s\<lparr>clock := max (clock s) t\<rparr>"

text \<open>
  One blocking request: \<open>httpx.post\<close>, \<open>httpx.get\<close>, \<open>self.client.get\<close>.
  The session cookie is sent as it is stored; httpx takes a string or None as the value
  of a cookie, and what it does with a value of another type is not modelled.
\<close>

definition send :: "world \<Rightarrow> request \<Rightarrow> state \<Rightarrow> response \<times> state" where
  "send w rq s =
     (let k = length (sent s);
          t = clock s + lag w k
      in (reply w k rq, s\<lparr>clock := t + latency w k, sent := sent s @ [(t, rq)]\<rparr>))"

subsection \<open>Constants of the module\<close>

definition BASE_URL :: string where
  "BASE_URL = ''https://in.coosto.com''"

definition ENDPOINT_LOGIN :: string where
  "ENDPOINT_LOGIN = ''/api/1/users/login''"

definition ENDPOINT_RATE_LIMIT :: string where
  "ENDPOINT_RATE_LIMIT = ''/api/1/users/rate_limit_status''"

definition ENDPOINT_DATE :: string where
  "ENDPOINT_DATE = ''/?since=:start_date:&until=:end_date:''"

definition ENDPOINT_INTERVENTION :: string where
  "ENDPOINT_INTERVENTION = ''/api/1/engagementstats/get_intervention_details''"

subsection \<open>Login and rate limit\<close>

text \<open>
  \<open>Coosto._login\<close>: posts the credentials, raises on a status outside 2xx, and
  stores \<open>{'sessionid': data.get('sessionid')}\<close>, where \<open>data\<close> is
  \<open>response.json().get('data', {})\<close>. Nothing checks that a session id came back.
\<close>

definition login_request :: "state \<Rightarrow> request" where
  "login_request s =
     (let payload = [(''username'', username s), (''password'', password s)]
      in \<lparr>meth = POST, address = BASE_URL @ ENDPOINT_LOGIN, form = payload, cookie = []\<rparr>)"

definition login :: "world \<Rightarrow> state \<Rightarrow> (error + unit) \<times> state" where
  "login w s =
     (let (response, s1) = send w (login_request s) s
      in case raise_for_status response of
           Inl e \<Rightarrow> (Inl e, s1)
         | Inr _ \<Rightarrow>
            (case json_body response of
               Inl e \<Rightarrow> (Inl e, s1)
             | Inr body \<Rightarrow>
                (case dict_get body ''data'' (JObj []) of
                   Inl e \<Rightarrow> (Inl e, s1)
                 | Inr response_data \<Rightarrow>
                    (case dict_get response_data ''sessionid'' JNull of
                       Inl e \<Rightarrow> (Inl e, s1)
                     | Inr sid \<Rightarrow> (Inr (), s1\<lparr>cookies := [(''sessionid'', sid)]\<rparr>)))))"

text \<open>\<open>Coosto.rate_limit\<close>: \<open>response.json().get('data')\<close>, None when absent.\<close>

definition rate_limit_request :: "state \<Rightarrow> request" where
  "rate_limit_request s =
     \<lparr>meth = GET, address = BASE_URL @ ENDPOINT_RATE_LIMIT, form = [], cookie = cookies s\<rparr>"

definition rate_limit :: "world \<Rightarrow> state \<Rightarrow> (error + json) \<times> state" where
  "rate_limit w s =
     (let (response, s1) = send w (rate_limit_request s) s
      in case raise_for_status response of
           Inl e \<Rightarrow> (Inl e, s1)
         | Inr _ \<Rightarrow>
            (case json_body response of
               Inl e \<Rightarrow> (Inl e, s1)
             | Inr body \<Rightarrow> (dict_get body ''data'' JNull, s1)))"

text \<open>
  \<open>Coosto.set_rate_limit\<close>: when \<open>enabled\<close> is falsy the method returns before
  the assignment, and the object has no attribute \<open>max_requests\<close>.
\<close>

definition set_rate_limit :: "world \<Rightarrow> state \<Rightarrow> (error + unit) \<times> state" where
  "set_rate_limit w s =
     (case rate_limit w s of
        (Inl e, s1) \<Rightarrow> (Inl e, s1)
      | (Inr rate_dict, s1) \<Rightarrow>
         (case dict_get rate_dict ''enabled'' JNull of
            Inl e \<Rightarrow> (Inl e, s1)
          | Inr enabled \<Rightarrow>
             if \<not> truthy enabled then (Inr (), s1)
             else (case dict_get rate_dict ''max_requests'' JNull of
                     Inl e \<Rightarrow> (Inl e, s1)
                   | Inr m \<Rightarrow> (Inr (), s1\<lparr>max_requests := Some m\<rparr>))))"

text \<open>
  Lines 35 to 37 of \<open>Coosto.__init__\<close>, in a process whose clock shows \<open>t0\<close> and
  that has sent no request yet: the object has its credentials and no cookie.
\<close>

definition fresh :: "string \<Rightarrow> string \<Rightarrow> int \<Rightarrow> state" where
  "fresh user pass t0 =
     \<lparr>username = user, password = pass, cookies = [], max_requests = None,
      next_request = None, clock = t0, sent = []\<rparr>"

text \<open>\<open>Coosto.__init__\<close>: login, then the rate limit, then \<open>next_request = None\<close>.\<close>

definition init :: "world \<Rightarrow> string \<Rightarrow> string \<Rightarrow> int \<Rightarrow> (error + unit) \<times> state" where
  "init w user pass t0 =
     (let s0 = fresh user pass t0
      in case login w s0 of
           (Inl e, s1) \<Rightarrow> (Inl e, s1)
         | (Inr _, s1) \<Rightarrow>
            (case set_rate_limit w s1 of
               (Inl e, s2) \<Rightarrow> (Inl e, s2)
             | (Inr _, s2) \<Rightarrow> (Inr (), s2\<lparr>next_request := None\<rparr>)))"

subsection \<open>Strings and calendar dates of the Python library\<close>

text \<open>\<open>s.split(sep)\<close> for a separator of one character: never the empty list.\<close>

fun split :: "char \<Rightarrow> string \<Rightarrow> string list" where
  "split sep [] = [[]]"
| "split sep (c # cs) =
     (if c = sep then [] # split sep cs
      else (case split sep cs of [] \<Rightarrow> [[c]] | p # ps \<Rightarrow> (c # p) # ps))"

text \<open>\<open>xs[i]\<close> for \<open>i \<ge> 0\<close>: IndexError out of range.\<close>

definition index :: "'a list \<Rightarrow> nat \<Rightarrow> error + 'a" where
  "index xs i = (if i < length xs then Inr (xs ! i) else Inl IndexError)"

text \<open>The ASCII characters that \<open>str.strip\<close>, \<open>str.lstrip\<close> and \<open>int\<close> skip.\<close>

definition is_space :: "char \<Rightarrow> bool" where
  "is_space c = (c \<in> set [CHR 0x09, CHR 0x0A, CHR 0x0B, CHR 0x0C, CHR 0x0D,
                           CHR 0x1C, CHR 0x1D, CHR 0x1E, CHR 0x1F, CHR 0x20])"

definition lstrip :: "string \<Rightarrow> string" where
  "lstrip s = dropWhile is_space s"

definition strip :: "string \<Rightarrow> string" where
  "strip s = rev (dropWhile is_space (rev (dropWhile is_space s)))"

definition digit_val :: "char \<Rightarrow> int option" where
  "digit_val c =
     map_of [(CHR ''0'', 0), (CHR ''1'', 1), (CHR ''2'', 2), (CHR ''3'', 3), (CHR ''4'', 4),
             (CHR ''5'', 5), (CHR ''6'', 6), (CHR ''7'', 7), (CHR ''8'', 8), (CHR ''9'', 9)] c"

text \<open>
  The digits of a decimal literal after its first digit; one underscore may stand
  between two digits.
\<close>

fun digits :: "int \<Rightarrow> string \<Rightarrow> int option" where
  "digits a [] = Some a"
| "digits a [c] = (case digit_val c of None \<Rightarrow> None | Some d \<Rightarrow> Some (10 * a + d))"
| "digits a (c # c' # cs) =
     (if c = CHR ''_''
      then (case digit_val c' of None \<Rightarrow> None | Some d \<Rightarrow> digits (10 * a + d) cs)
      else (case digit_val c of None \<Rightarrow> None | Some d \<Rightarrow> digits (10 * a + d) (c' # cs)))"

text \<open>
  \<open>int(s)\<close> for a string of ASCII characters: whitespace around, an optional sign,
  decimal digits; anything else raises ValueError.
\<close>

definition py_int :: "string \<Rightarrow> error + int" where
  "py_int s =
     (let t = strip s;
          (sgn, u) = (case t of
                        [] \<Rightarrow> (1, t)
                      | c # r \<Rightarrow> if c = CHR ''+'' then (1, r)
                                 else if c = CHR ''-'' then (- 1, r) else (1, t))
      in case u of
           [] \<Rightarrow> Inl ValueError
         | c # cs \<Rightarrow>
            (case digit_val c of
               None \<Rightarrow> Inl ValueError
             | Some d \<Rightarrow> (case digits d cs of None \<Rightarrow> Inl ValueError | Some n \<Rightarrow> Inr (sgn * n))))"

text \<open>\<open>str(n)\<close> for an int.\<close>

function str_nat :: "nat \<Rightarrow> string" where
  "str_nat n =
     (if n < 10 then [''0123456789'' ! n]
      else str_nat (n div 10) @ [''0123456789'' ! (n mod 10)])"
  by pat_completeness auto
termination
  by (relation "measure (\<lambda>n. n)") auto

declare str_nat.simps [simp del]

definition str_int :: "int \<Rightarrow> string" where
  "str_int i = (if i < 0 then CHR ''-'' # str_nat (nat (- i)) else str_nat (nat i))"

text \<open>\<open>s.replace(old, new)\<close>: every occurrence, left to right, without overlap.\<close>

function replace :: "string \<Rightarrow> string \<Rightarrow> string \<Rightarrow> string" where
  "replace old new [] = (if old = [] then new else [])"
| "replace old new (c # cs) =
     (if old = [] then new @ c # replace old new cs
      else if take (length old) (c # cs) = old
           then new @ replace old new (drop (length old) (c # cs))
           else c # replace old new cs)"
  by pat_completeness auto
termination
  by (relation "measure (\<lambda>(old, new, s). length s)") auto

text \<open>
  \<open>datetime.date\<close>: a date is its proleptic Gregorian ordinal (\<open>date.toordinal()\<close>,
  1 for 0001-01-01), so that the difference of two dates is the difference of the
  ordinals. \<open>date(year, month, day)\<close> raises ValueError outside the calendar.
\<close>

definition is_leap :: "int \<Rightarrow> bool" where
  "is_leap y = (y mod 4 = 0 \<and> (y mod 100 \<noteq> 0 \<or> y mod 400 = 0))"

definition days_in_month :: "int \<Rightarrow> int \<Rightarrow> int" where
  "days_in_month y m =
     (if m = 2 \<and> is_leap y then 29
      else [31, 28, 31, 30, 31, 30, 31, 31, 30, 31, 30, 31] ! nat (m - 1))"

definition days_before_year :: "int \<Rightarrow> int" where
  "days_before_year year = (let y = year - 1 in y * 365 + y div 4 - y div 100 + y div 400)"

definition days_before_month :: "int \<Rightarrow> int \<Rightarrow> int" where
  "days_before_month y m =
     [0, 31, 59, 90, 120, 151, 181, 212, 243, 273, 304, 334] ! nat (m - 1)
       + (if m > 2 \<and> is_leap y then 1 else 0)"

definition py_date :: "int \<Rightarrow> int \<Rightarrow> int \<Rightarrow> error + int" where
  "py_date y m d =
     (if 1 \<le> y \<and> y \<le> 9999 \<and> 1 \<le> m \<and> m \<le> 12 \<and> 1 \<le> d \<and> d \<le> days_in_month y m
      then Inr (days_before_year y + days_before_month y m + d)
      else Inl ValueError)"

text \<open>The ordinal of 1970-01-01.\<close>

definition EPOCH_ORDINAL :: int where
  "EPOCH_ORDINAL = 719163"

text \<open>\<open>datetime.utcnow()\<close>, as the ordinal of its calendar day.\<close>

definition utc_today :: "state \<Rightarrow> int" where
  "utc_today s = clock s div 86400000000 + EPOCH_ORDINAL"

text \<open>
  \<open>rrule(freq=DAILY, dtstart=period, until=...)\<close> with a date as \<open>dtstart\<close>:
  midnight of \<open>period\<close> and of every following day, as long as that naive midnight
  is not after the naive \<open>until\<close>; with \<open>until = datetime.utcnow()\<close> these are
  the days up to the UTC calendar day of now.
\<close>

definition rrule_daily :: "int \<Rightarrow> int \<Rightarrow> int list" where
  "rrule_daily dtstart until_day = [dtstart..until_day]"

text \<open>
  \<open>date_day.strftime('%s')\<close> on a naive midnight: the C library reads it as local
  time, and the result is the epoch second of local midnight of that day. The source
  carries it as a decimal string and reads it back with \<open>int\<close>; the model carries
  the integer (\<open>py_int_str_int\<close> below).
\<close>

definition strftime_s :: "world \<Rightarrow> int \<Rightarrow> int" where
  "strftime_s w d = (d - EPOCH_ORDINAL) * 86400 - utcoffset w d"

subsection \<open>The days from the start date until now\<close>

text \<open>Lines 136 to 141 of \<open>Coosto._start_days_till_now\<close>: the start date.\<close>

definition parse_start_date :: "string \<Rightarrow> error + int" where
  "parse_start_date start_date =
     (let parts = split (CHR ''-'') start_date
      in case index parts 0 of Inl e \<Rightarrow> Inl e | Inr p0 \<Rightarrow>
         (case py_int p0 of Inl e \<Rightarrow> Inl e | Inr year \<Rightarrow>
         (case index parts 1 of Inl e \<Rightarrow> Inl e | Inr p1 \<Rightarrow>
         (case py_int (lstrip p1) of Inl e \<Rightarrow> Inl e | Inr month \<Rightarrow>
         (case index parts 2 of Inl e \<Rightarrow> Inl e | Inr p2 \<Rightarrow>
         (case py_int (lstrip p2) of Inl e \<Rightarrow> Inl e | Inr day \<Rightarrow>
            py_date year month day))))))"

text \<open>\<open>Coosto._start_days_till_now\<close>: the epoch second of every day until now.\<close>

definition start_days_till_now :: "world \<Rightarrow> state \<Rightarrow> string \<Rightarrow> error + int list" where
  "start_days_till_now w s start_date =
     (case parse_start_date start_date of
        Inl e \<Rightarrow> Inl e
      | Inr period \<Rightarrow> Inr (map (strftime_s w) (rrule_daily period (utc_today s))))"

text \<open>
  Line 64: the window of a day runs from its epoch second to that plus 86400. These
  two numbers are the \<open>since\<close> and \<open>until\<close> of the day's request.
\<close>

definition day_window :: "int \<Rightarrow> int \<times> int" where
  "day_window date_day = (date_day, date_day + 86400)"

definition day_windows :: "world \<Rightarrow> state \<Rightarrow> string \<Rightarrow> error + (int \<times> int) list" where
  "day_windows w s start_date =
     (case start_days_till_now w s start_date of
        Inl e \<Rightarrow> Inl e
      | Inr days \<Rightarrow> Inr (map day_window days))"

subsection \<open>The cleaner registry\<close>

text \<open>
  The table \<open>CLEANERS\<close> of \<open>tap_coosto.cleaners\<close> maps the name of a report to a
  function on raw records; a cleaner may raise. The table is a parameter of the
  model. Line 60 looks the cleaner up with the default \<open>{}\<close>: when the name is not
  registered, \<open>cleaner\<close> is an empty dict, and calling a dict raises TypeError.
\<close>

type_synonym registry = "string \<rightharpoonup> (json \<Rightarrow> error + json)"

datatype cleaner = Callable "json \<Rightarrow> error + json" | EmptyDict

definition get_cleaner :: "registry \<Rightarrow> cleaner" where
  "get_cleaner CLEANERS =
     (case CLEANERS ''intervention_details'' of None \<Rightarrow> EmptyDict | Some f \<Rightarrow> Callable f)"

fun call :: "cleaner \<Rightarrow> json \<Rightarrow> error + json" where
  "call (Callable f) row = f row"
| "call EmptyDict row = Inl TypeError"

subsection \<open>One day of \<open>Coosto.intervention_details\<close>\<close>

text \<open>Lines 64 to 78: the URL of the day's request.\<close>

definition day_url :: "int \<Rightarrow> string" where
  "day_url date_day =
     (let end_of_day = date_day + 86400;
          date = replace '':end_date:'' (str_int end_of_day)
                   (replace '':start_date:'' (str_int date_day) ENDPOINT_DATE)
      in BASE_URL @ ENDPOINT_INTERVENTION @ date)"

text \<open>Lines 88 to 91: the request of the day, with the session cookie.\<close>

definition day_request :: "state \<Rightarrow> int \<Rightarrow> request" where
  "day_request s date_day =
     \<lparr>meth = GET, address = day_url date_day, form = [], cookie = cookies s\<rparr>"

text \<open>
  Lines 84 to 105, the body of the loop up to the rows of the day: wait for
  \<open>next_request\<close> if there is one, send the request, set \<open>next_request\<close> from
  \<open>max_requests\<close>, and only then look at the response. The result is the list the
  generator expression of line 103 iterates over.
\<close>

definition fetch_day :: "world \<Rightarrow> int \<Rightarrow> state \<Rightarrow> (error + json list) \<times> state" where
  "fetch_day w date_day s =
     (let s1 = (case next_request s of None \<Rightarrow> s | Some t \<Rightarrow> pause_until t s);
          (response, s2) = send w (day_request s date_day) s1
      in case max_requests s2 of
           None \<Rightarrow> (Inl AttributeError, s2)
         | Some m \<Rightarrow>
            (case sixty_div m of
               Inl e \<Rightarrow> (Inl e, s2)
             | Inr sleep_between_requests \<Rightarrow>
                (let seconds = timedelta sleep_between_requests;
                     s3 = s2\<lparr>next_request := Some (clock s2 + seconds)\<rparr>
                 in case raise_for_status response of
                      Inl e \<Rightarrow> (Inl e, s3)
                    | Inr _ \<Rightarrow>
                       (case json_body response of
                          Inl e \<Rightarrow> (Inl e, s3)
                        | Inr response_data \<Rightarrow>
                           (case dict_get response_data ''data'' JNull of
                              Inl e \<Rightarrow> (Inl e, s3)
                            | Inr rows \<Rightarrow> (py_iter rows, s3))))))"

subsection \<open>The generator\<close>

text \<open>
  \<open>intervention_details\<close> is a generator function: the call only builds the
  generator object, and the body runs when the caller asks for an element. A
  generator is either not started (it holds the keyword arguments of the call),
  suspended at the \<open>yield\<close> of line 103 (it holds the cleaner, the days still to
  fetch and the rows of the current day still to yield), or finished.
\<close>

datatype pyval = PNone | PBool bool | PInt int | PStr string

text \<open>\<open>str(x)\<close>.\<close>

fun py_str :: "pyval \<Rightarrow> string" where
  "py_str PNone = ''None''"
| "py_str (PBool b) = (if b then ''True'' else ''False'')"
| "py_str (PInt i) = str_int i"
| "py_str (PStr s) = s"

datatype gen =
    Created "string \<rightharpoonup> pyval"
  | Suspended cleaner "int list" "json list"
  | Finished

datatype outcome = Yield json | Raise error | StopIteration

text \<open>The call \<open>self.intervention_details(**kwargs)\<close> itself.\<close>

definition intervention_details :: "(string \<rightharpoonup> pyval) \<Rightarrow> state \<Rightarrow> (error + gen) \<times> state" where
  "intervention_details kwargs s = (Inr (Created kwargs), s)"

text \<open>
  The loop of lines 62 to 106 from a point where \<open>rows\<close> are left of the current
  day and \<open>days\<close> are still to fetch, up to the next \<open>yield\<close>, exception or end.
\<close>

fun resume :: "world \<Rightarrow> cleaner \<Rightarrow> int list \<Rightarrow> json list \<Rightarrow> state \<Rightarrow> outcome \<times> gen \<times> state" where
  "resume w c days (row # rows) s =
     (case call c row of
        Inl e \<Rightarrow> (Raise e, Finished, s)
      | Inr cleaned \<Rightarrow> (Yield cleaned, Suspended c days rows, s))"
| "resume w c [] [] s = (StopIteration, Finished, s)"
| "resume w c (date_day # days) [] s =
     (case fetch_day w date_day s of
        (Inl e, s') \<Rightarrow> (Raise e, Finished, s')
      | (Inr rows, s') \<Rightarrow> resume w c days rows s')"

text \<open>
  \<open>next(g)\<close>. Time has passed since the program last looked at the clock. A
  generator that was not started runs lines 53 to 62 first.
\<close>

definition gen_next :: "world \<Rightarrow> registry \<Rightarrow> gen \<Rightarrow> state \<Rightarrow> outcome \<times> gen \<times> state" where
  "gen_next w CLEANERS g s0 =
     (let s = elapse w s0
      in case g of
           Created kwargs \<Rightarrow>
             (let start_date_input =
                    py_str (case kwargs ''start_date'' of None \<Rightarrow> PStr [] | Some v \<Rightarrow> v)
              in if start_date_input = [] then (Raise ValueError, Finished, s)
                 else (let c = get_cleaner CLEANERS
                       in case start_days_till_now w s start_date_input of
                            Inl e \<Rightarrow> (Raise e, Finished, s)
                          | Inr days \<Rightarrow> resume w c days [] s))
         | Suspended c days rows \<Rightarrow> resume w c days rows s
         | Finished \<Rightarrow> (StopIteration, Finished, s))"

text \<open>\<open>next(self.intervention_details(**kwargs))\<close>: the call and the first element.\<close>

definition first_next :: "world \<Rightarrow> registry \<Rightarrow> (string \<rightharpoonup> pyval) \<Rightarrow> state \<Rightarrow> outcome \<times> gen \<times> state" where
  "first_next w CLEANERS kwargs s =
     (case intervention_details kwargs s of
        (Inl e, s') \<Rightarrow> (Raise e, Finished, s')
      | (Inr g, s') \<Rightarrow> gen_next w CLEANERS g s')"

subsection \<open>What a run shows\<close>

text \<open>
  The moment the request of the next day fetch leaves, seen from the state before
  the fetch: after the pause of lines 84 to 86 and the time the client needs to send.
\<close>

definition issue_time :: "world \<Rightarrow> state \<Rightarrow> int" where
  "issue_time w s =
     (case next_request s of None \<Rightarrow> clock s | Some t \<Rightarrow> max (clock s) t)
       + lag w (length (sent s))"

text \<open>The moment the most recent request left.\<close>

definition issued_at :: "state \<Rightarrow> int" where
  "issued_at s = fst (last (sent s))"

text \<open>Time passing between two steps of the program.\<close>

definition later :: "int \<Rightarrow> state \<Rightarrow> state" where
  "later dt s = s\<lparr>clock := clock s + dt\<rparr>"

text \<open>Properties of a sequence of day windows \<open>(since, until)\<close>.\<close>

definition day_wide :: "int \<times> int \<Rightarrow> bool" where
  "day_wide win = (snd win - fst win = 86400)"

fun ascending :: "(int \<times> int) list \<Rightarrow> bool" where
  "ascending (a # b # ws) = (fst a < fst b \<and> ascending (b # ws))"
| "ascending ws = True"

fun contiguous :: "(int \<times> int) list \<Rightarrow> bool" where
  "contiguous (a # b # ws) = (snd a = fst b \<and> contiguous (b # ws))"
| "contiguous ws = True"

text \<open>
  A consumer that asks the generator for an element \<open>n\<close> times, as the loop
  \<open>for row in coosto.intervention_details(...)\<close> does.
\<close>

fun consume :: "world \<Rightarrow> registry \<Rightarrow> nat \<Rightarrow> gen \<Rightarrow> state \<Rightarrow> gen \<times> state" where
  "consume w CLEANERS 0 g s = (g, s)"
| "consume w CLEANERS (Suc n) g s =
     (case gen_next w CLEANERS g s of (out, g', s') \<Rightarrow> consume w CLEANERS n g' s')"

text \<open>The moments at which the requests after the first \<open>k\<close> of the log left.\<close>

definition sent_after :: "nat \<Rightarrow> state \<Rightarrow> int list" where
  "sent_after k s = map fst (drop k (sent s))"

text \<open>Moments that are at least \<open>q\<close> microseconds apart, each from the one before.\<close>

fun spaced :: "int \<Rightarrow> int list \<Rightarrow> bool" where
  "spaced q (t # t' # ts) = (t + q \<le> t' \<and> spaced q (t' # ts))"
| "spaced q ts = True"

text \<open>
  The state of a client with \<open>N\<close> requests a minute whose log had \<open>k\<close> requests
  when the constructor returned: the day requests since then are spaced, and
  \<open>next_request\<close> is set as soon as there is one, to a time at least
  \<open>timedelta (60 / N)\<close> after the last of them left.
\<close>

definition paced :: "rat \<Rightarrow> nat \<Rightarrow> state \<Rightarrow> bool" where
  "paced N k s =
     (max_requests s = Some (JNum N) \<and> k \<le> length (sent s)
      \<and> spaced (timedelta (60 / N)) (sent_after k s)
      \<and> (case next_request s of
            None \<Rightarrow> length (sent s) = k
          | Some t \<Rightarrow> k < length (sent s) \<and> issued_at s + timedelta (60 / N) \<le> t))"

text \<open>
  With \<open>N\<close> requests a minute, a next allowed request time that was set is at most
  \<open>timedelta (60 / N)\<close> ahead of the clock.
\<close>

definition recorded :: "rat \<Rightarrow> state \<Rightarrow> bool" where
  "recorded N s =
     (max_requests s = Some (JNum N)
      \<and> (case next_request s of
            None \<Rightarrow> True
          | Some t \<Rightarrow> t \<le> clock s + timedelta (60 / N)))"

text \<open>
  From \<open>s\<close> to \<open>s'\<close> neither the clock nor the next allowed request time has
  gone back, and a time that was set is still set.
\<close>

definition not_before :: "state \<Rightarrow> state \<Rightarrow> bool" where
  "not_before s s' =
     (clock s \<le> clock s'
      \<and> (case next_request s of
            None \<Rightarrow> True
          | Some t \<Rightarrow> (case next_request s' of None \<Rightarrow> False | Some t' \<Rightarrow> t \<le> t')))"

subsection \<open>Example runs\<close>

text \<open>
  A service that answers the first request (the login), the second (the rate limit)
  and every later one (a day of the report) with the three given responses; every
  response takes a quarter of a second, and the local zone is UTC.
\<close>

definition demo_world :: "response \<Rightarrow> response \<Rightarrow> response \<Rightarrow> world" where
  "demo_world login_reply rate_reply day_reply =
     \<lparr>reply = (\<lambda>k rq. if k = 0 then login_reply else if k = 1 then rate_reply else day_reply),
      idle = (\<lambda>k. 0), lag = (\<lambda>k. 0), latency = (\<lambda>k. 250000), utcoffset = (\<lambda>d. 0)\<rparr>"

definition ok :: "json \<Rightarrow> response" where
  "ok body = \<lparr>status_code = 200, content = Some body\<rparr>"

definition session_body :: json where
  "session_body = JObj [(''data'', JObj [(''sessionid'', JStr ''abc'')])]"

definition rate_body :: "bool \<Rightarrow> rat \<Rightarrow> json" where
  "rate_body enabled n =
     JObj [(''data'', JObj [(''enabled'', JBool enabled), (''max_requests'', JNum n)])]"

definition rows_body :: json where
  "rows_body = JObj [(''data'', JArr [JObj [(''id'', JNum 1)]])]"

text \<open>
  The example service with a session id and a rate limit of 60 requests a minute,
  switched on or off.
\<close>

abbreviation enabled_world :: "response \<Rightarrow> world" where
  "enabled_world day_reply \<equiv> demo_world (ok session_body) (ok (rate_body True 60)) day_reply"

abbreviation disabled_world :: "response \<Rightarrow> world" where
  "disabled_world day_reply \<equiv> demo_world (ok session_body) (ok (rate_body False 60)) day_reply"

text \<open>A registry with a cleaner for the report that returns the record as it is.\<close>

definition demo_registry :: registry where
  "demo_registry = [''intervention_details'' \<mapsto> (\<lambda>row. Inr row)]"

text \<open>
  Europe/Amsterdam in spring 2020: summer time began on 2020-03-29 at 02:00, so local
  midnight is one hour ahead of UTC up to that day (ordinal 737513) and two hours
  ahead from the next day on.
\<close>

definition amsterdam :: "int \<Rightarrow> int" where
  "amsterdam d = (if d \<le> 737513 then 3600 else 7200)"

text \<open>
  2020-01-03 10:00:00 UTC and 2020-03-30 12:00:00 UTC, in microseconds since the
  epoch.
\<close>

definition jan_3_2020_10h :: int where
  "jan_3_2020_10h = 1578045600000000"

definition mar_30_2020_12h :: int where
  "mar_30_2020_12h = 1585569600000000"

text \<open>
  The example service with a rate limit of \<open>N\<close> requests a minute that answers
  at once: no time passes between a request and the reading of the clock after it.
\<close>

definition instant_world :: "rat \<Rightarrow> response \<Rightarrow> world" where
  "instant_world N day_reply =
     (demo_world (ok session_body) (ok (rate_body True N)) day_reply)\<lparr>latency := (\<lambda>k. 0)\<rparr>"

section \<open>Properties\<close>

subsection \<open>Unfolding the model\<close>

lemmas client_defs =
  init_def fresh_def login_def login_request_def set_rate_limit_def rate_limit_def
  rate_limit_request_def send_def raise_for_status_def is_success_def json_body_def

lemmas date_defs =
  start_days_till_now_def parse_start_date_def index_def py_int_def strip_def lstrip_def
  is_space_def digit_val_def py_date_def days_in_month_def days_before_year_def
  days_before_month_def is_leap_def rrule_daily_def utc_today_def EPOCH_ORDINAL_def
  strftime_s_def upto.simps

lemmas gen_defs =
  first_next_def intervention_details_def gen_next_def elapse_def get_cleaner_def
  fetch_day_def pause_until_def

lemmas demo_defs =
  demo_world_def ok_def session_body_def rate_body_def rows_body_def demo_registry_def
  jan_3_2020_10h_def mar_30_2020_12h_def amsterdam_def

subsection \<open>The epoch second as a string\<close>

text \<open>
  \<open>_start_days_till_now\<close> yields each epoch second as the decimal string that
  \<open>strftime('%s')\<close> prints, and line 64 reads it back with \<open>int\<close>. Reading
  back what \<open>str\<close> printed gives the number again, so the model may carry the number.
\<close>

lemma digit_val_nth:
  assumes "k < 10"
  shows "digit_val (''0123456789'' ! k) = Some (int k)"
proof -
  have "k \<in> {0, 1, 2, 3, 4, 5, 6, 7, 8, 9}"
    using assms by auto
  then show ?thesis
    by (auto simp: digit_val_def)
qed

lemma digit_plain:
  assumes "digit_val c = Some d"
  shows "\<not> is_space c" and "c \<noteq> CHR ''_''" and "c \<noteq> CHR ''+''" and "c \<noteq> CHR ''-''"
  using assms by (auto simp: digit_val_def is_space_def split: if_splits)

lemma digits_all_digits:
  assumes "\<forall>c \<in> set cs. digit_val c \<noteq> None"
  shows "digits a cs = Some (foldl (\<lambda>v c. 10 * v + the (digit_val c)) a cs)"
  using assms
proof (induction a cs rule: digits.induct)
  case (1 a)
  then show ?case by simp
next
  case (2 a c)
  then show ?case by auto
next
  case (3 a c c' cs)
  then obtain d where d: "digit_val c = Some d" by auto
  then have "c \<noteq> CHR ''_''" by (rule digit_plain)
  then show ?case using 3 d by simp
qed

lemma str_nat_digits:
  "str_nat n \<noteq> [] \<and> (\<forall>c \<in> set (str_nat n). digit_val c \<noteq> None)
   \<and> foldl (\<lambda>v c. 10 * v + the (digit_val c)) 0 (str_nat n) = int n"
proof (induction n rule: str_nat.induct)
  case (1 n)
  show ?case
  proof (cases "n < 10")
    case True
    then show ?thesis
      by (simp add: str_nat.simps [of n] digit_val_nth)
  next
    case False
    have m: "n mod 10 < 10" by simp
    have "int (n div 10) * 10 + int (n mod 10) = int n"
      by (metis div_mult_mod_eq of_nat_add of_nat_mult of_nat_numeral)
    then show ?thesis
      using False "1.IH" digit_val_nth [OF m]
      by (simp add: str_nat.simps [of n] mult.commute)
  qed
qed

lemma strip_plain:
  assumes "s \<noteq> []" and "\<not> is_space (hd s)" and "\<not> is_space (last s)"
  shows "strip s = s"
proof -
  have a: "dropWhile is_space s = s"
    using assms(1,2) by (cases s) simp_all
  have "dropWhile is_space (rev s) = rev s"
    using assms(1,3) by (cases "rev s") (simp_all add: last_rev [symmetric] del: last_rev)
  then show ?thesis
    by (simp add: strip_def a)
qed

lemma py_int_str_nat: "py_int (str_nat n) = Inr (int n)"
proof -
  obtain c cs where s: "str_nat n = c # cs"
    using str_nat_digits [of n] by (cases "str_nat n") auto
  have all: "\<forall>x \<in> set (c # cs). digit_val x \<noteq> None"
    and v: "foldl (\<lambda>v c. 10 * v + the (digit_val c)) 0 (c # cs) = int n"
    using str_nat_digits [of n] s by simp_all
  obtain d where d: "digit_val c = Some d"
    using all by auto
  have l: "digit_val (last (c # cs)) \<noteq> None"
    using all last_in_set [of "c # cs"] by blast
  then obtain d' where "digit_val (last (c # cs)) = Some d'" by auto
  then have "\<not> is_space (last (c # cs))" by (rule digit_plain)
  moreover have "\<not> is_space c" using d by (rule digit_plain)
  ultimately have st: "strip (c # cs) = c # cs"
    by (intro strip_plain) simp_all
  have "digits d cs = Some (int n)"
    using digits_all_digits [of cs d] all v d by simp
  then show ?thesis
    using d digit_plain(3,4) [OF d] by (simp add: py_int_def s st)
qed

lemma py_int_str_int: "py_int (str_int i) = Inr i"
proof (cases "i < 0")
  case False
  then show ?thesis
    using py_int_str_nat [of "nat i"] by (simp add: str_int_def)
next
  case True
  let ?s = "str_nat (nat (- i))"
  have ne: "?s \<noteq> []" and all: "\<forall>c \<in> set ?s. digit_val c \<noteq> None"
    using str_nat_digits [of "nat (- i)"] by simp_all
  have "digit_val (last ?s) \<noteq> None"
    using all ne last_in_set by blast
  then obtain d' where "digit_val (last ?s) = Some d'" by auto
  then have "\<not> is_space (last ?s)" by (rule digit_plain)
  then have st: "strip (CHR ''-'' # ?s) = CHR ''-'' # ?s"
    using ne by (intro strip_plain) (simp_all add: is_space_def)
  have inner: "py_int ?s = Inr (int (nat (- i)))"
    by (rule py_int_str_nat)
  obtain c cs where s: "?s = c # cs"
    using ne by (cases ?s) auto
  obtain d where d: "digit_val c = Some d"
    using all s by auto
  have "\<not> is_space c" using d by (rule digit_plain)
  moreover have "digit_val (last (c # cs)) \<noteq> None"
    using all s ne last_in_set [of "c # cs"] by auto
  then obtain d'' where "digit_val (last (c # cs)) = Some d''" by auto
  then have "\<not> is_space (last (c # cs))" by (rule digit_plain)
  ultimately have st': "strip (c # cs) = c # cs"
    by (intro strip_plain) simp_all
  have "digits d cs = Some (int (nat (- i)))"
    using inner d digit_plain(3,4) [OF d]
    by (simp add: py_int_def s st' split: option.splits)
  then show ?thesis
    using True d st by (simp add: str_int_def py_int_def s)
qed

subsection \<open>One day fetch\<close>

text \<open>
  With a usable \<open>max_requests\<close> a day fetch always reaches line 94: whatever the
  response, the state afterwards has the request in its log and the new
  \<open>next_request\<close>.
\<close>

lemma fetch_day_state:
  assumes "max_requests s = Some (JNum N)" and "N \<noteq> 0"
  shows "snd (fetch_day w d s) =
           s\<lparr>clock := issue_time w s + latency w (length (sent s)),
             sent := sent s @ [(issue_time w s, day_request s d)],
             next_request := Some (issue_time w s + latency w (length (sent s)) + timedelta (60 / N))\<rparr>"
  using assms
  by (simp add: fetch_day_def send_def pause_until_def issue_time_def Let_def
           split: option.splits sum.splits prod.splits)


text \<open>Without the attribute the fetch raises right after the request was sent.\<close>

lemma fetch_day_unset:
  assumes "max_requests s = None"
  shows "fst (fetch_day w d s) = Inl AttributeError"
    and "sent (snd (fetch_day w d s)) = sent (case next_request s of None \<Rightarrow> s | Some t \<Rightarrow> pause_until t s) @ [(issue_time w s, day_request s d)]"
    and "next_request (snd (fetch_day w d s)) = next_request s"
  using assms
  by (simp_all add: fetch_day_def send_def pause_until_def issue_time_def Let_def
           split: option.splits sum.splits prod.splits)

text \<open>The URL of the request for 2020-01-01 under UTC.\<close>

lemma day_url_example:
  "day_url 1577836800 =
     ''https://in.coosto.com/api/1/engagementstats/get_intervention_details/?since=1577836800&until=1577923200''"
  by (simp add: day_url_def BASE_URL_def ENDPOINT_INTERVENTION_def ENDPOINT_DATE_def
      str_int_def str_nat.simps)

lemma clock_le_issue_time:
  assumes "monotone_clock w"
  shows "clock s \<le> issue_time w s"
proof -
  have "0 \<le> lag w (length (sent s))"
    using assms by (simp add: monotone_clock_def)
  then show ?thesis
    by (cases "next_request s") (simp_all add: issue_time_def max_def)
qed

lemma next_request_le_issue_time:
  assumes "monotone_clock w" and "next_request s = Some t"
  shows "t \<le> issue_time w s"
proof -
  have "0 \<le> lag w (length (sent s))"
    using assms(1) by (simp add: monotone_clock_def)
  then show ?thesis
    using assms(2) by (simp add: issue_time_def max_def)
qed

text \<open>The constructor on the example service with an enabled rate limit of 60.\<close>

lemma init_enabled:
  "init (demo_world (ok session_body) (ok (rate_body True 60)) r) ''u'' ''p'' t =
     (Inr (), \<lparr>username = ''u'', password = ''p'', cookies = [(''sessionid'', JStr ''abc'')],
               max_requests = Some (JNum 60), next_request = None, clock = t + 500000,
               sent = [(t, \<lparr>meth = POST, address = BASE_URL @ ENDPOINT_LOGIN,
                            form = [(''username'', ''u''), (''password'', ''p'')], cookie = []\<rparr>),
                       (t + 250000, \<lparr>meth = GET, address = BASE_URL @ ENDPOINT_RATE_LIMIT, form = [],
                            cookie = [(''sessionid'', JStr ''abc'')]\<rparr>)]\<rparr>)"
  by (simp add: client_defs demo_defs)

lemma demo_world_monotone: "monotone_clock (demo_world a b c)"
  by (simp add: monotone_clock_def demo_world_def)

lemma demo_world_reply: "2 \<le> k \<Longrightarrow> reply (demo_world a b c) k rq = c"
  by (simp add: demo_world_def)

lemma demo_world_delays:
  "idle (demo_world a b c) k = 0" "lag (demo_world a b c) k = 0"
  "latency (demo_world a b c) k = 250000"
  by (simp_all add: demo_world_def)

subsection \<open>What \<open>timedelta\<close> rounds to\<close>

lemma round_half_even_near:
  "of_int (round_half_even x) \<le> x + 1 / 2 \<and> x - 1 / 2 \<le> of_int (round_half_even x)"
proof -
  let ?f = "\<lfloor>x\<rfloor>"
  have lo: "of_int ?f \<le> x" and hi: "x < of_int ?f + 1"
    by linarith+
  consider (below) "x - of_int ?f < 1 / 2" | (above) "1 / 2 < x - of_int ?f"
    | (tie) "x - of_int ?f = 1 / 2"
    by linarith
  then show ?thesis
  proof cases
    case below
    then have "round_half_even x = ?f"
      by (simp add: round_half_even_def Let_def)
    then have "of_int (round_half_even x) = (of_int ?f :: rat)"
      by (simp only:)
    then show ?thesis using lo hi below by linarith
  next
    case above
    then have "round_half_even x = ?f + 1"
      by (simp add: round_half_even_def Let_def)
    then have "of_int (round_half_even x) = (of_int ?f :: rat) + 1"
      by (simp only: of_int_add of_int_1)
    then show ?thesis using lo hi above by linarith
  next
    case tie
    then have "round_half_even x = ?f \<or> round_half_even x = ?f + 1"
      by (simp add: round_half_even_def Let_def)
    then have "of_int (round_half_even x) = (of_int ?f :: rat)
             \<or> of_int (round_half_even x) = (of_int ?f :: rat) + 1"
      by (metis of_int_add of_int_1)
    then show ?thesis using tie by (elim disjE; linarith)
  qed
qed

lemma timedelta_one_second: "timedelta (60 / 60) = 1000000"
  by (simp add: timedelta_def round_half_even_def)

lemma timedelta_eleven: "timedelta (60 / 11) = 5454545"
proof -
  have "\<lfloor>60000000 / 11 :: rat\<rfloor> = 5454545"
    by (simp add: floor_eq_iff)
  then show ?thesis
    by (simp add: timedelta_def round_half_even_def)
qed

text \<open>The constructor on the example service that answers at once.\<close>

lemma init_instant:
  "init (instant_world N r) ''u'' ''p'' t =
     (Inr (), \<lparr>username = ''u'', password = ''p'', cookies = [(''sessionid'', JStr ''abc'')],
               max_requests = Some (JNum N), next_request = None, clock = t,
               sent = [(t, \<lparr>meth = POST, address = BASE_URL @ ENDPOINT_LOGIN,
                            form = [(''username'', ''u''), (''password'', ''p'')], cookie = []\<rparr>),
                       (t, \<lparr>meth = GET, address = BASE_URL @ ENDPOINT_RATE_LIMIT, form = [],
                            cookie = [(''sessionid'', JStr ''abc'')]\<rparr>)]\<rparr>)"
  by (simp add: client_defs demo_defs instant_world_def)

lemma instant_world_delays:
  "lag (instant_world N r) k = 0" "latency (instant_world N r) k = 0"
  by (simp_all add: instant_world_def demo_world_def)

lemma instant_world_monotone: "monotone_clock (instant_world N r)"
  by (simp add: monotone_clock_def instant_world_def demo_world_def)


subsection \<open>Pacing\<close>






text \<open>
  C9, as the claim states it, fails: the pause lasts until the recorded time, and
  that is \<open>60 / N\<close> seconds rounded to a whole microsecond after the clock reading,
  which can be less than \<open>60 / N\<close>. Here two fetches of a client with 11 requests a
  minute on the service that answers at once: the second request leaves 5454545
  microseconds after the first, less than \<open>60 / 11\<close> seconds.
\<close>

theorem eleven_a_minute_under_interval:
  "issued_at (snd (fetch_day (instant_world 11 (ok rows_body)) 1577923200
       (later 0 (snd (fetch_day (instant_world 11 (ok rows_body)) 1577836800
         (snd (init (instant_world 11 (ok rows_body)) ''u'' ''p'' jan_3_2020_10h)))))))
     - issued_at (snd (fetch_day (instant_world 11 (ok rows_body)) 1577836800
         (snd (init (instant_world 11 (ok rows_body)) ''u'' ''p'' jan_3_2020_10h))))
     = 5454545
   \<and> (5454545 / 1000000 :: rat) < 60 / 11"
proof -
  let ?w = "instant_world 11 (ok rows_body)"
  let ?s = "snd (init ?w ''u'' ''p'' jan_3_2020_10h)"
  let ?s1 = "snd (fetch_day ?w 1577836800 ?s)"
  let ?s1' = "later 0 ?s1"
  let ?s2 = "snd (fetch_day ?w 1577923200 ?s1')"
  have m: "max_requests ?s = Some (JNum 11)" and n: "(11::rat) \<noteq> 0"
    by (simp_all add: init_instant)
  have i: "issue_time ?w ?s = jan_3_2020_10h"
    by (simp add: init_instant issue_time_def instant_world_delays)
  have s1: "issued_at ?s1 = jan_3_2020_10h" "clock ?s1 = jan_3_2020_10h"
    "next_request ?s1 = Some (jan_3_2020_10h + 5454545)" "max_requests ?s1 = Some (JNum 11)"
    using fetch_day_state [OF m n, of ?w 1577836800] m i
    by (simp_all add: issued_at_def timedelta_eleven instant_world_delays)
  have m': "max_requests ?s1' = Some (JNum 11)"
    using s1(4) by (simp add: later_def)
  have i': "issue_time ?w ?s1' = jan_3_2020_10h + 5454545"
    using s1(2,3) by (simp add: issue_time_def later_def instant_world_delays)
  have "issued_at ?s2 = jan_3_2020_10h + 5454545"
    using fetch_day_state [OF m' n, of ?w 1577923200] i' by (simp add: issued_at_def)
  then show ?thesis
    using s1(1) by simp
qed

text \<open>
  C9, amended. With an enabled rate limit of \<open>N > 0\<close> requests a minute, a fetch
  sends its request no earlier than the next allowed request time recorded by the
  fetch before it, and so at least \<open>60 / N\<close> seconds rounded to the nearest
  microsecond after that fetch sent its own; the rounded interval is never more than
  half a microsecond short of \<open>60 / N\<close> seconds.
\<close>

theorem successive_fetches_spaced:
  assumes "monotone_clock w" and "max_requests s = Some (JNum N)" and "0 < N" and "0 \<le> dt"
  shows "the (next_request (snd (fetch_day w d1 s)))
           \<le> issued_at (snd (fetch_day w d2 (later dt (snd (fetch_day w d1 s)))))
       \<and> issued_at (snd (fetch_day w d1 s)) + timedelta (60 / N)
           \<le> issued_at (snd (fetch_day w d2 (later dt (snd (fetch_day w d1 s)))))
       \<and> 60 / N * 1000000 - 1 / 2 \<le> of_int (timedelta (60 / N))"
proof -
  let ?s1 = "snd (fetch_day w d1 s)"
  let ?s1' = "later dt ?s1"
  let ?s2 = "snd (fetch_day w d2 ?s1')"
  let ?q = "timedelta (60 / N)"
  have n: "N \<noteq> 0" using assms(3) by simp
  have s1: "next_request ?s1 = Some (issue_time w s + latency w (length (sent s)) + ?q)"
    "max_requests ?s1 = Some (JNum N)" "issued_at ?s1 = issue_time w s"
    using fetch_day_state [OF assms(2) n] assms(2) by (simp_all add: issued_at_def)
  have m: "max_requests ?s1' = Some (JNum N)"
    and nr: "next_request ?s1' = Some (issue_time w s + latency w (length (sent s)) + ?q)"
    using s1 by (simp_all add: later_def)
  have s2: "issued_at ?s2 = issue_time w ?s1'"
    using fetch_day_state [OF m n] by (simp add: issued_at_def)
  have a: "issue_time w s + latency w (length (sent s)) + ?q \<le> issue_time w ?s1'"
    using assms(1) nr by (rule next_request_le_issue_time)
  have l: "0 \<le> latency w (length (sent s))"
    using assms(1) by (simp add: monotone_clock_def)
  have r: "60 / N * 1000000 - 1 / 2 \<le> of_int ?q"
    using round_half_even_near [of "60 / N * 1000000"] by (simp add: timedelta_def)
  show ?thesis using a l r s1 s2 by simp
qed

theorem successive_fetches_spaced_witness:
  "monotone_clock (enabled_world (ok rows_body))
   \<and> max_requests (snd (init (enabled_world (ok rows_body)) ''u'' ''p'' jan_3_2020_10h))
       = Some (JNum 60)
   \<and> issued_at (snd (fetch_day (enabled_world (ok rows_body)) 1577836800
         (snd (init (enabled_world (ok rows_body)) ''u'' ''p'' jan_3_2020_10h)))) + 1000000
      \<le> issued_at (snd (fetch_day (enabled_world (ok rows_body)) 1577923200
         (later 0 (snd (fetch_day (enabled_world (ok rows_body)) 1577836800
         (snd (init (enabled_world (ok rows_body)) ''u'' ''p'' jan_3_2020_10h)))))))"
proof -
  let ?w = "enabled_world (ok rows_body)"
  let ?s = "snd (init ?w ''u'' ''p'' jan_3_2020_10h)"
  have c: "monotone_clock ?w" by (rule demo_world_monotone)
  have m: "max_requests ?s = Some (JNum 60)" by (simp add: init_enabled)
  have n: "(0::rat) < 60" and d: "(0::int) \<le> 0" by simp_all
  have t: "timedelta (60 / 60) = 1000000"
    by (rule timedelta_one_second)
  show ?thesis
    using successive_fetches_spaced [OF c m n d, of 1577836800 1577923200] c m t by simp
qed

subsection \<open>Pacing over a whole run of the generator\<close>

lemma spaced_snoc:
  assumes "spaced q ts" and "ts \<noteq> [] \<Longrightarrow> last ts + q \<le> t"
  shows "spaced q (ts @ [t])"
  using assms by (induction q ts rule: spaced.induct) auto

lemma paced_elapse:
  assumes "paced N k s"
  shows "paced N k (elapse w s)"
  using assms
  by (simp add: paced_def elapse_def sent_after_def issued_at_def split: option.splits)

lemma paced_fetch_day:
  assumes "monotone_clock w" and "0 < N" and "paced N k s"
  shows "paced N k (snd (fetch_day w d s))"
proof -
  let ?t = "issue_time w s"
  let ?s' = "snd (fetch_day w d s)"
  have m: "max_requests s = Some (JNum N)" and n: "N \<noteq> 0" and k: "k \<le> length (sent s)"
    and sp: "spaced (timedelta (60 / N)) (sent_after k s)"
    using assms(2,3) by (simp_all add: paced_def)
  have st: "sent ?s' = sent s @ [(?t, day_request s d)]"
    "next_request ?s' = Some (?t + latency w (length (sent s)) + timedelta (60 / N))"
    "max_requests ?s' = Some (JNum N)"
    using fetch_day_state [OF m n, of w d] m by simp_all
  have a: "sent_after k ?s' = sent_after k s @ [?t]"
    using k by (simp add: sent_after_def st)
  have b: "last (sent_after k s) + timedelta (60 / N) \<le> ?t" if "sent_after k s \<noteq> []"
  proof -
    have lt: "k < length (sent s)"
      using that by (simp add: sent_after_def)
    then obtain t where t: "next_request s = Some t" "issued_at s + timedelta (60 / N) \<le> t"
      using assms(3) by (auto simp: paced_def split: option.splits)
    have "last (sent_after k s) = issued_at s"
      using lt by (simp add: sent_after_def issued_at_def last_map last_drop)
    moreover have "t \<le> ?t"
      using assms(1) t(1) by (rule next_request_le_issue_time)
    ultimately show ?thesis using t(2) by simp
  qed
  have "spaced (timedelta (60 / N)) (sent_after k ?s')"
    unfolding a using sp b by (rule spaced_snoc)
  moreover have "0 \<le> latency w (length (sent s))"
    using assms(1) by (simp add: monotone_clock_def)
  ultimately show ?thesis
    using k st by (simp add: paced_def issued_at_def)
qed

lemma paced_resume:
  assumes "monotone_clock w" and "0 < N" and "paced N k s"
  shows "paced N k (snd (snd (resume w c days rows s)))"
  using assms
proof (induction w c days rows s rule: resume.induct)
  case (1 w c days row rows s)
  then show ?case by (simp split: sum.splits)
next
  case (2 w c s)
  then show ?case by simp
next
  case (3 w c date_day days s)
  obtain r s' where f: "fetch_day w date_day s = (r, s')"
    by (cases "fetch_day w date_day s")
  have p: "paced N k s'"
    using paced_fetch_day [OF "3.prems", of date_day] f by simp
  show ?case
  proof (cases r)
    case (Inl e)
    then show ?thesis using f p by simp
  next
    case (Inr rows)
    then show ?thesis using f p "3.prems"(1,2) "3.IH" by simp
  qed
qed

lemma paced_gen_next:
  assumes "monotone_clock w" and "0 < N" and "paced N k s"
  shows "paced N k (snd (snd (gen_next w CLEANERS g s)))"
proof -
  have e: "paced N k (elapse w s)"
    using assms(3) by (rule paced_elapse)
  show ?thesis
    using e paced_resume [OF assms(1,2) e]
    by (cases g) (simp_all add: gen_next_def Let_def split: sum.splits)
qed

lemma paced_consume:
  assumes "monotone_clock w" and "0 < N" and "paced N k s"
  shows "paced N k (snd (consume w CLEANERS n g s))"
  using assms(3)
proof (induction n arbitrary: g s)
  case 0
  then show ?case by simp
next
  case (Suc n)
  obtain out g' s' where x: "gen_next w CLEANERS g s = (out, g', s')"
    by (cases "gen_next w CLEANERS g s")
  have "paced N k s'"
    using paced_gen_next [OF assms(1,2) Suc.prems, of CLEANERS g] x by simp
  then show ?case
    using Suc.IH x by simp
qed

text \<open>
  However many elements the consumer takes from the generator, the day requests that
  have left since the constructor returned are at least \<open>timedelta (60 / N)\<close>
  microseconds apart.
\<close>

lemma generator_requests_spaced:
  assumes "monotone_clock w" and "0 < N"
    and "max_requests s = Some (JNum N)" and "next_request s = None"
  shows "spaced (timedelta (60 / N))
           (sent_after (length (sent s)) (snd (consume w CLEANERS n (Created kwargs) s)))"
proof -
  have "paced N (length (sent s)) s"
    using assms(3,4) by (simp add: paced_def sent_after_def)
  then have "paced N (length (sent s)) (snd (consume w CLEANERS n (Created kwargs) s))"
    by (rule paced_consume [OF assms(1,2)])
  then show ?thesis by (simp add: paced_def)
qed

subsection \<open>The next allowed request time over a whole run of the generator\<close>

lemma not_before_refl: "not_before s s"
  by (simp add: not_before_def split: option.splits)

lemma not_before_trans:
  assumes "not_before s s'" and "not_before s' s''"
  shows "not_before s s''"
  using assms by (auto simp: not_before_def split: option.splits)

lemma recorded_elapse:
  assumes "monotone_clock w" and "recorded N s"
  shows "recorded N (elapse w s) \<and> not_before s (elapse w s)"
proof -
  have "0 \<le> idle w (length (sent s))"
    using assms(1) by (simp add: monotone_clock_def)
  then show ?thesis
    using assms(2)
    by (auto simp: recorded_def not_before_def elapse_def split: option.splits)
qed

lemma recorded_fetch_day:
  assumes "monotone_clock w" and "N \<noteq> 0" and "recorded N s"
  shows "recorded N (snd (fetch_day w d s)) \<and> not_before s (snd (fetch_day w d s))"
proof -
  let ?s' = "snd (fetch_day w d s)"
  have m: "max_requests s = Some (JNum N)"
    using assms(3) by (simp add: recorded_def)
  have st: "clock ?s' = issue_time w s + latency w (length (sent s))"
    "next_request ?s' = Some (clock ?s' + timedelta (60 / N))" "max_requests ?s' = Some (JNum N)"
    using fetch_day_state [OF m assms(2), of w d] m by simp_all
  have "clock s \<le> issue_time w s"
    using assms(1) by (rule clock_le_issue_time)
  moreover have "0 \<le> latency w (length (sent s))"
    using assms(1) by (simp add: monotone_clock_def)
  ultimately have c: "clock s \<le> clock ?s'"
    using st(1) by simp
  have "t \<le> clock ?s' + timedelta (60 / N)" if "next_request s = Some t" for t
    using that assms(3) c by (simp add: recorded_def)
  then show ?thesis
    using c st(2,3) by (simp add: recorded_def not_before_def split: option.splits)
qed

lemma recorded_resume:
  assumes "monotone_clock w" and "N \<noteq> 0" and "recorded N s"
  shows "recorded N (snd (snd (resume w c days rows s)))
       \<and> not_before s (snd (snd (resume w c days rows s)))"
  using assms
proof (induction w c days rows s rule: resume.induct)
  case (1 w c days row rows s)
  then show ?case by (simp add: not_before_refl split: sum.splits)
next
  case (2 w c s)
  then show ?case by (simp add: not_before_refl)
next
  case (3 w c date_day days s)
  obtain r s' where f: "fetch_day w date_day s = (r, s')"
    by (cases "fetch_day w date_day s")
  have p: "recorded N s'" "not_before s s'"
    using recorded_fetch_day [OF "3.prems", of date_day] f by simp_all
  show ?case
  proof (cases r)
    case (Inl e)
    then show ?thesis using f p by simp
  next
    case (Inr rows)
    then have "recorded N (snd (snd (resume w c days rows s')))
             \<and> not_before s' (snd (snd (resume w c days rows s')))"
      using f p(1) "3.prems"(1,2) "3.IH" by simp
    then show ?thesis
      using f Inr p(2) by (auto intro: not_before_trans)
  qed
qed

lemma recorded_gen_next:
  assumes "monotone_clock w" and "N \<noteq> 0" and "recorded N s"
  shows "recorded N (snd (snd (gen_next w CLEANERS g s)))
       \<and> not_before s (snd (snd (gen_next w CLEANERS g s)))"
proof -
  have e: "recorded N (elapse w s)" "not_before s (elapse w s)"
    using recorded_elapse [OF assms(1,3)] by simp_all
  have r: "recorded N (snd (snd (resume w c days rows (elapse w s))))
         \<and> not_before s (snd (snd (resume w c days rows (elapse w s))))" for c days rows
    using recorded_resume [OF assms(1,2) e(1), of c days rows] e(2)
    by (auto intro: not_before_trans)
  show ?thesis
    using e r by (cases g) (simp_all add: gen_next_def Let_def split: sum.splits)
qed

text \<open>
  However many elements the consumer takes from the generator, each call of
  \<open>next\<close> leaves a next allowed request time that is not before the one it found.
\<close>

lemma generator_next_request_non_decreasing:
  assumes "monotone_clock w" and "N \<noteq> 0"
    and "max_requests s = Some (JNum N)" and "next_request s = None"
  shows "not_before (snd (consume w CLEANERS n (Created kwargs) s))
           (snd (consume w CLEANERS (Suc n) (Created kwargs) s))"
proof -
  have step: "recorded N (snd (consume w CLEANERS n g s'))
            \<and> not_before (snd (consume w CLEANERS n g s'))
                (snd (consume w CLEANERS (Suc n) g s'))"
    if "recorded N s'" for g s'
    using that
  proof (induction n arbitrary: g s')
    case 0
    then show ?case
      using recorded_gen_next [OF assms(1,2) "0.prems", of CLEANERS g]
      by (cases "gen_next w CLEANERS g s'") simp
  next
    case (Suc n)
    obtain out g' s'' where x: "gen_next w CLEANERS g s' = (out, g', s'')"
      by (cases "gen_next w CLEANERS g s'")
    have "recorded N s''"
      using recorded_gen_next [OF assms(1,2) Suc.prems, of CLEANERS g] x by simp
    then show ?case
      using Suc.IH [of s'' g'] x by simp
  qed
  have "recorded N s"
    using assms(3,4) by (simp add: recorded_def)
  then show ?thesis
    using step by blast
qed

subsection \<open>The first element of the generator\<close>

lemma first_next_missing_start_date:
  assumes "kwargs ''start_date'' = None \<or> kwargs ''start_date'' = Some (PStr [])"
  shows "first_next w CLEANERS kwargs s = (Raise ValueError, Finished, elapse w s)"
  using assms by (auto simp: first_next_def intervention_details_def gen_next_def)

lemma sent_elapse: "sent (elapse w s) = sent s"
  by (simp add: elapse_def)

text \<open>A constructor that returns has sent the login and the rate limit request.\<close>

lemma login_sent:
  "sent (snd (login w s)) = sent s @ [(clock s + lag w (length (sent s)), login_request s)]"
  by (simp add: login_def send_def Let_def split: sum.splits prod.splits)

lemma set_rate_limit_sent:
  "sent (snd (set_rate_limit w s)) =
     sent s @ [(clock s + lag w (length (sent s)), rate_limit_request s)]"
  by (simp add: set_rate_limit_def rate_limit_def send_def Let_def
           split: sum.splits prod.splits)

lemma init_sent:
  assumes "init w user pass t0 = (Inr (), s)"
  shows "map (\<lambda>x. address (snd x)) (sent s) =
           [BASE_URL @ ENDPOINT_LOGIN, BASE_URL @ ENDPOINT_RATE_LIMIT]"
proof -
  obtain r1 s1 where l: "login w (fresh user pass t0) = (r1, s1)"
    by (cases "login w (fresh user pass t0)")
  obtain r2 s2 where r: "set_rate_limit w s1 = (r2, s2)"
    by (cases "set_rate_limit w s1")
  have s: "s = s2\<lparr>next_request := None\<rparr>"
    using assms l r by (simp add: init_def Let_def split: sum.splits)
  have "sent s1 = [(t0 + lag w 0, login_request (fresh user pass t0))]"
    using login_sent [of w "fresh user pass t0"] l by (simp add: fresh_def)
  moreover have "sent s2 = sent s1 @ [(clock s1 + lag w (length (sent s1)), rate_limit_request s1)]"
    using set_rate_limit_sent [of w s1] r by simp
  ultimately show ?thesis
    using s by (simp add: login_request_def rate_limit_request_def)
qed

text \<open>The constructor on the example service with the rate limit switched off.\<close>

lemma init_disabled:
  "init (disabled_world r) ''u'' ''p'' t =
     (Inr (), \<lparr>username = ''u'', password = ''p'', cookies = [(''sessionid'', JStr ''abc'')],
               max_requests = None, next_request = None, clock = t + 500000,
               sent = [(t, \<lparr>meth = POST, address = BASE_URL @ ENDPOINT_LOGIN,
                            form = [(''username'', ''u''), (''password'', ''p'')], cookie = []\<rparr>),
                       (t + 250000, \<lparr>meth = GET, address = BASE_URL @ ENDPOINT_RATE_LIMIT, form = [],
                            cookie = [(''sessionid'', JStr ''abc'')]\<rparr>)]\<rparr>)"
  by (simp add: client_defs demo_defs)

text \<open>The days of the example run: 2020-01-01 up to 2020-01-03 at 10:00 UTC.\<close>

lemma demo_days:
  assumes "clock s = jan_3_2020_10h + 500000"
  shows "start_days_till_now (demo_world a b c) s ''2020-01-01'' =
           Inr [1577836800, 1577923200, 1578009600]"
  using assms by (simp add: date_defs demo_defs)

subsection \<open>Rate limit switched off\<close>

text \<open>
  C1. The claim: when the rate limit metadata has \<open>enabled = false\<close>, every day
  step goes through without a pause and without an error. The code: the constructor
  leaves the object without \<open>max_requests\<close>, and the first day fetch sends its
  request and then raises AttributeError at line 92. Here the run on the example
  service: rate limit \<open>{enabled: false, max_requests: 60}\<close>, start date 2020-01-01.
\<close>

theorem disabled_rate_limit_first_fetch_raises:
  "fst (init (disabled_world (ok rows_body)) ''u'' ''p'' jan_3_2020_10h) = Inr ()
   \<and> max_requests (snd (init (disabled_world (ok rows_body)) ''u'' ''p'' jan_3_2020_10h)) = None
   \<and> fst (first_next (disabled_world (ok rows_body)) demo_registry
            [''start_date'' \<mapsto> PStr ''2020-01-01'']
            (snd (init (disabled_world (ok rows_body)) ''u'' ''p'' jan_3_2020_10h)))
       = Raise AttributeError
   \<and> length (sent (snd (snd (first_next (disabled_world (ok rows_body)) demo_registry
            [''start_date'' \<mapsto> PStr ''2020-01-01'']
            (snd (init (disabled_world (ok rows_body)) ''u'' ''p'' jan_3_2020_10h)))))) = 3"
proof -
  let ?w = "disabled_world (ok rows_body)"
  let ?s = "snd (init ?w ''u'' ''p'' jan_3_2020_10h)"
  have e: "clock (elapse ?w ?s) = jan_3_2020_10h + 500000"
    by (simp add: init_disabled elapse_def demo_world_delays)
  have f: "first_next ?w demo_registry [''start_date'' \<mapsto> PStr ''2020-01-01''] ?s =
             resume ?w (get_cleaner demo_registry) [1577836800, 1577923200, 1578009600] []
               (elapse ?w ?s)"
    by (simp add: first_next_def intervention_details_def gen_next_def demo_days [OF e])
  have m: "max_requests (elapse ?w ?s) = None"
    by (simp add: init_disabled elapse_def)
  have l: "length (sent (elapse ?w ?s)) = 2" "next_request (elapse ?w ?s) = None"
    by (simp_all add: init_disabled elapse_def)
  obtain r s' where fd: "fetch_day ?w 1577836800 (elapse ?w ?s) = (r, s')"
    by (cases "fetch_day ?w 1577836800 (elapse ?w ?s)")
  have "r = Inl AttributeError" "length (sent s') = 3"
    using fetch_day_unset [OF m, of ?w 1577836800] fd l by simp_all
  then show ?thesis
    using f fd by (simp add: init_disabled)
qed

subsection \<open>A body without data\<close>

lemma fetch_day_no_data:
  assumes "max_requests s = Some (JNum N)" and "N \<noteq> 0"
    and "is_success (status_code (reply w (length (sent s)) (day_request s d)))"
    and "content (reply w (length (sent s)) (day_request s d)) = Some (JObj kvs)"
    and "map_of kvs ''data'' = None"
  shows "fst (fetch_day w d s) = Inl TypeError"
  using assms
  by (simp add: fetch_day_def send_def pause_until_def raise_for_status_def json_body_def
           Let_def split: option.splits sum.splits prod.splits)

lemma fetch_day_rows:
  assumes "max_requests s = Some (JNum N)" and "N \<noteq> 0"
    and "is_success (status_code (reply w (length (sent s)) (day_request s d)))"
    and "content (reply w (length (sent s)) (day_request s d)) = Some (JObj kvs)"
    and "map_of kvs ''data'' = Some (JArr rows)"
  shows "fst (fetch_day w d s) = Inr rows"
  using assms
  by (simp add: fetch_day_def send_def pause_until_def raise_for_status_def json_body_def
           Let_def split: option.splits sum.splits prod.splits)

text \<open>
  C2. The claim: a 2xx response whose body has no \<open>data\<close> key gives the empty
  sequence for that day. The code: \<open>response_data.get('data')\<close> is None without a
  default, and iterating None raises TypeError. Here the first day of the example
  run, answered with status 200 and the body \<open>{}\<close>.
\<close>

theorem missing_data_key_raises:
  "fst (fetch_day (enabled_world (ok (JObj []))) 1577836800
          (snd (init (enabled_world (ok (JObj []))) ''u'' ''p'' jan_3_2020_10h)))
     = Inl TypeError
   \<and> fst (first_next (enabled_world (ok (JObj []))) demo_registry
            [''start_date'' \<mapsto> PStr ''2020-01-01'']
            (snd (init (enabled_world (ok (JObj []))) ''u'' ''p'' jan_3_2020_10h)))
       = Raise TypeError"
proof -
  let ?w = "enabled_world (ok (JObj []))"
  let ?s = "snd (init ?w ''u'' ''p'' jan_3_2020_10h)"
  have el: "elapse ?w ?s = ?s"
    by (simp add: elapse_def demo_world_delays)
  have e: "clock (elapse ?w ?s) = jan_3_2020_10h + 500000"
    by (simp add: init_enabled elapse_def demo_world_delays)
  have f: "first_next ?w demo_registry [''start_date'' \<mapsto> PStr ''2020-01-01''] ?s =
             resume ?w (get_cleaner demo_registry) [1577836800, 1577923200, 1578009600] [] ?s"
    using demo_days [OF e] by (simp add: first_next_def intervention_details_def gen_next_def el)
  have m: "max_requests ?s = Some (JNum 60)" and n: "(60::rat) \<noteq> 0"
    by (simp_all add: init_enabled)
  have r: "reply ?w (length (sent ?s)) (day_request ?s 1577836800) = ok (JObj [])"
    by (simp add: init_enabled demo_world_reply)
  have "is_success (status_code (reply ?w (length (sent ?s)) (day_request ?s 1577836800)))"
    and "content (reply ?w (length (sent ?s)) (day_request ?s 1577836800)) = Some (JObj [])"
    using r by (simp_all add: ok_def is_success_def)
  then have fd: "fst (fetch_day ?w 1577836800 ?s) = Inl TypeError"
    by (rule fetch_day_no_data [OF m n]) simp
  then show ?thesis
    using f by (simp split: prod.splits sum.splits)
qed

subsection \<open>A report without a cleaner\<close>

lemma resume_unregistered:
  "resume w EmptyDict days (row # rows) s = (Raise TypeError, Finished, s)"
  by simp

text \<open>
  C3. The claim: without a registered cleaner the raw records pass through
  unchanged. The code: the lookup falls back to \<open>{}\<close>, which is not a function,
  and \<open>cleaner(row)\<close> raises TypeError on the first record. Here the example run
  with one record a day: with the empty registry the first element raises, with a
  registered cleaner that returns its argument the record comes out.
\<close>

theorem unregistered_cleaner_raises:
  "fst (first_next (enabled_world (ok rows_body)) Map.empty
          [''start_date'' \<mapsto> PStr ''2020-01-01'']
          (snd (init (enabled_world (ok rows_body)) ''u'' ''p'' jan_3_2020_10h)))
     = Raise TypeError
   \<and> fst (first_next (enabled_world (ok rows_body)) demo_registry
            [''start_date'' \<mapsto> PStr ''2020-01-01'']
            (snd (init (enabled_world (ok rows_body)) ''u'' ''p'' jan_3_2020_10h)))
       = Yield (JObj [(''id'', JNum 1)])"
proof -
  let ?w = "enabled_world (ok rows_body)"
  let ?s = "snd (init ?w ''u'' ''p'' jan_3_2020_10h)"
  have el: "elapse ?w ?s = ?s"
    by (simp add: elapse_def demo_world_delays)
  have e: "clock (elapse ?w ?s) = jan_3_2020_10h + 500000"
    by (simp add: init_enabled elapse_def demo_world_delays)
  have f: "first_next ?w C [''start_date'' \<mapsto> PStr ''2020-01-01''] ?s =
             resume ?w (get_cleaner C) [1577836800, 1577923200, 1578009600] [] ?s" for C
    using demo_days [OF e] by (simp add: first_next_def intervention_details_def gen_next_def el)
  have r: "reply ?w (length (sent ?s)) (day_request ?s 1577836800) = ok rows_body"
    by (simp add: init_enabled demo_world_reply)
  have m: "max_requests ?s = Some (JNum 60)" and n: "(60::rat) \<noteq> 0"
    by (simp_all add: init_enabled)
  have "is_success (status_code (reply ?w (length (sent ?s)) (day_request ?s 1577836800)))"
    and "content (reply ?w (length (sent ?s)) (day_request ?s 1577836800))
           = Some (JObj [(''data'', JArr [JObj [(''id'', JNum 1)]])])"
    using r by (simp_all add: ok_def rows_body_def is_success_def)
  then have "fst (fetch_day ?w 1577836800 ?s) = Inr [JObj [(''id'', JNum 1)]]"
    by (rule fetch_day_rows [OF m n]) simp
  then obtain s' where fd: "fetch_day ?w 1577836800 ?s = (Inr [JObj [(''id'', JNum 1)]], s')"
    by (cases "fetch_day ?w 1577836800 ?s") simp
  show ?thesis
    by (simp add: f fd get_cleaner_def demo_registry_def)
qed

subsection \<open>A missing start date\<close>

text \<open>
  C4, as the claim states it, fails: the validation of \<open>start_date\<close> is the first
  statement of \<open>intervention_details\<close>, a method of an object whose constructor has
  already sent two requests. Here the example run with the empty start date: the
  first element raises ValueError, and the log holds the login and the rate limit
  request.
\<close>

theorem empty_start_date_after_two_requests:
  "fst (first_next (enabled_world (ok rows_body)) demo_registry [''start_date'' \<mapsto> PStr '''']
          (snd (init (enabled_world (ok rows_body)) ''u'' ''p'' jan_3_2020_10h)))
     = Raise ValueError
   \<and> length (sent (snd (snd (first_next (enabled_world (ok rows_body)) demo_registry
          [''start_date'' \<mapsto> PStr '''']
          (snd (init (enabled_world (ok rows_body)) ''u'' ''p'' jan_3_2020_10h)))))) = 2"
  by (simp add: first_next_missing_start_date sent_elapse init_enabled)

text \<open>
  C4, amended. With an absent or empty \<open>start_date\<close> the first step of the
  iteration raises ValueError before any request for a day: the iteration sends
  nothing, and the requests made before the failure are the login and the rate limit
  request of the constructor.
\<close>

theorem missing_start_date_raises_before_any_day_request:
  assumes "init w user pass t0 = (Inr (), s)"
    and "kwargs ''start_date'' = None \<or> kwargs ''start_date'' = Some (PStr [])"
  shows "fst (first_next w CLEANERS kwargs s) = Raise ValueError
       \<and> sent (snd (snd (first_next w CLEANERS kwargs s))) = sent s
       \<and> map (\<lambda>x. address (snd x)) (sent s) =
           [BASE_URL @ ENDPOINT_LOGIN, BASE_URL @ ENDPOINT_RATE_LIMIT]"
  using first_next_missing_start_date [where kwargs = kwargs, OF assms(2)]
    init_sent [OF assms(1)]
  by (simp add: sent_elapse)

theorem missing_start_date_raises_before_any_day_request_witness:
  "init (enabled_world (ok rows_body)) ''u'' ''p'' jan_3_2020_10h
     = (Inr (), snd (init (enabled_world (ok rows_body)) ''u'' ''p'' jan_3_2020_10h))
   \<and> (Map.empty :: string \<rightharpoonup> pyval) ''start_date'' = None
   \<and> fst (first_next (enabled_world (ok rows_body)) demo_registry Map.empty
            (snd (init (enabled_world (ok rows_body)) ''u'' ''p'' jan_3_2020_10h)))
       = Raise ValueError"
proof -
  let ?w = "enabled_world (ok rows_body)"
  have i: "init ?w ''u'' ''p'' jan_3_2020_10h = (Inr (), snd (init ?w ''u'' ''p'' jan_3_2020_10h))"
    by (simp add: init_enabled)
  have k: "(Map.empty :: string \<rightharpoonup> pyval) ''start_date'' = None
             \<or> (Map.empty :: string \<rightharpoonup> pyval) ''start_date'' = Some (PStr [])"
    by simp
  show ?thesis
    using missing_start_date_raises_before_any_day_request [OF i k, of demo_registry] i
    by simp
qed

subsection \<open>Laziness\<close>

text \<open>
  C10. The call of \<open>intervention_details\<close> validates nothing and sends nothing: for
  every input it returns a generator that has not started and leaves the state as
  it was. The error for a missing or empty \<open>start_date\<close> comes when the caller asks
  for the first element.
\<close>

theorem intervention_details_is_lazy:
  "intervention_details kwargs s = (Inr (Created kwargs), s)
   \<and> (kwargs ''start_date'' = None \<or> kwargs ''start_date'' = Some (PStr [])
        \<longrightarrow> fst (gen_next w CLEANERS (Created kwargs) s) = Raise ValueError
            \<and> sent (snd (snd (gen_next w CLEANERS (Created kwargs) s))) = sent s)"
  by (auto simp: intervention_details_def gen_next_def elapse_def)

theorem intervention_details_is_lazy_witness:
  "intervention_details [''start_date'' \<mapsto> PStr '''']
       (snd (init (enabled_world (ok rows_body)) ''u'' ''p'' jan_3_2020_10h))
     = (Inr (Created [''start_date'' \<mapsto> PStr '''']),
        snd (init (enabled_world (ok rows_body)) ''u'' ''p'' jan_3_2020_10h))
   \<and> fst (gen_next (enabled_world (ok rows_body)) demo_registry
            (Created [''start_date'' \<mapsto> PStr ''''])
            (snd (init (enabled_world (ok rows_body)) ''u'' ''p'' jan_3_2020_10h)))
       = Raise ValueError"
  using intervention_details_is_lazy
    [of "[''start_date'' \<mapsto> PStr '''']"
        "snd (init (enabled_world (ok rows_body)) ''u'' ''p'' jan_3_2020_10h)"
        "enabled_world (ok rows_body)" demo_registry]
  by simp

subsection \<open>Day windows\<close>

lemma ascending_map_upto:
  assumes "\<forall>d. i \<le> d \<and> d < j \<longrightarrow> fst (f d) < fst (f (d + 1))"
  shows "ascending (map f [i..j])"
  using assms
proof (induction i j rule: upto.induct)
  case (1 i j)
  show ?case
  proof (cases "i + 1 \<le> j")
    case True
    then have u: "[i..j] = i # (i + 1) # [i + 1 + 1..j]"
      by (simp add: upto.simps [of i j] upto.simps [of "i + 1" j])
    have t: "[i + 1..j] = (i + 1) # [i + 1 + 1..j]"
      using True by (simp add: upto.simps [of "i + 1" j])
    have "ascending (map f [i + 1..j])"
      using True "1.prems" by (intro "1.IH") auto
    then show ?thesis
      using True "1.prems" by (simp add: u t)
  next
    case False
    then have "[i..j] = [] \<or> [i..j] = [i]"
      by (simp add: upto.simps [of i j] upto.simps [of "i + 1" j])
    then show ?thesis by auto
  qed
qed

lemma contiguous_map_upto:
  assumes "\<forall>d. i \<le> d \<and> d < j \<longrightarrow> snd (f d) = fst (f (d + 1))"
  shows "contiguous (map f [i..j])"
  using assms
proof (induction i j rule: upto.induct)
  case (1 i j)
  show ?case
  proof (cases "i + 1 \<le> j")
    case True
    then have u: "[i..j] = i # (i + 1) # [i + 1 + 1..j]"
      by (simp add: upto.simps [of i j] upto.simps [of "i + 1" j])
    have t: "[i + 1..j] = (i + 1) # [i + 1 + 1..j]"
      using True by (simp add: upto.simps [of "i + 1" j])
    have "contiguous (map f [i + 1..j])"
      using True "1.prems" by (intro "1.IH") auto
    then show ?thesis
      using True "1.prems" by (simp add: u t)
  next
    case False
    then have "[i..j] = [] \<or> [i..j] = [i]"
      by (simp add: upto.simps [of i j] upto.simps [of "i + 1" j])
    then show ?thesis by auto
  qed
qed

lemma day_windows_eq:
  assumes "parse_start_date start_date = Inr period"
  shows "day_windows w s start_date =
           Inr (map (\<lambda>d. day_window (strftime_s w d)) [period..utc_today s])"
  using assms by (simp add: day_windows_def start_days_till_now_def rrule_daily_def)

lemma parse_2020_03_28: "parse_start_date ''2020-03-28'' = Inr 737512"
  by (simp add: date_defs)

lemma parse_2020_01_01: "parse_start_date ''2020-01-01'' = Inr 737425"
  by (simp add: date_defs)

text \<open>
  C5, as the claim states it, fails: the start of a window is the epoch second of
  local midnight, and two local midnights are not always 86400 seconds apart. Here
  the windows from 2020-03-28 on 2020-03-30 in Amsterdam: the window of 03-29 ends
  at 1585522800, an hour after the window of 03-30 has begun.
\<close>

theorem day_windows_overlap_at_summer_time:
  "parse_start_date ''2020-03-28'' = Inr 737512
   \<and> 737512 \<le> utc_today (fresh ''u'' ''p'' mar_30_2020_12h)
   \<and> day_windows (enabled_world (ok rows_body)\<lparr>utcoffset := amsterdam\<rparr>)
        (fresh ''u'' ''p'' mar_30_2020_12h) ''2020-03-28''
       = Inr [(1585350000, 1585436400), (1585436400, 1585522800), (1585519200, 1585605600)]
   \<and> \<not> contiguous [(1585350000, 1585436400), (1585436400, 1585522800),
                     (1585519200, 1585605600)]"
proof -
  have t: "utc_today (fresh ''u'' ''p'' mar_30_2020_12h) = 737514"
    by (simp add: utc_today_def fresh_def mar_30_2020_12h_def EPOCH_ORDINAL_def)
  have u: "[737512..737514] = [737512, 737513, 737514]"
    by (simp add: upto.simps)
  show ?thesis
    by (simp add: day_windows_eq [OF parse_2020_03_28] parse_2020_03_28 t u strftime_s_def
        day_window_def amsterdam_def demo_world_def EPOCH_ORDINAL_def)
qed

text \<open>
  C5, amended. For every valid start date that is not after today, the UTC calendar
  day of now, there is one window for each day from the start date to today, that
  is \<open>(today - start_date).days + 1\<close> windows, each 86400 seconds wide. They are
  strictly ascending when the local UTC offset grows by less than a day from one
  midnight to the next, and contiguous when the offset is the same at both, as it
  always is under UTC.
\<close>

theorem day_windows_enumeration:
  assumes "parse_start_date start_date = Inr period" and "period \<le> utc_today s"
  shows "\<exists>ws. day_windows w s start_date = Inr ws
       \<and> int (length ws) = utc_today s - period + 1
       \<and> list_all day_wide ws
       \<and> ((\<forall>d. period \<le> d \<and> d < utc_today s
               \<longrightarrow> utcoffset w (d + 1) - utcoffset w d < 86400) \<longrightarrow> ascending ws)
       \<and> ((\<forall>d. period \<le> d \<and> d < utc_today s
               \<longrightarrow> utcoffset w (d + 1) = utcoffset w d) \<longrightarrow> contiguous ws)"
proof -
  let ?f = "\<lambda>d. day_window (strftime_s w d)"
  let ?ws = "map ?f [period..utc_today s]"
  have "day_windows w s start_date = Inr ?ws"
    using assms(1) by (rule day_windows_eq)
  moreover have "int (length ?ws) = utc_today s - period + 1"
    using assms(2) by simp
  moreover have "list_all day_wide ?ws"
    by (simp add: list_all_iff day_wide_def day_window_def)
  moreover have "ascending ?ws"
    if "\<forall>d. period \<le> d \<and> d < utc_today s \<longrightarrow> utcoffset w (d + 1) - utcoffset w d < 86400"
  proof (rule ascending_map_upto, intro allI impI)
    fix d assume "period \<le> d \<and> d < utc_today s"
    then have "utcoffset w (d + 1) - utcoffset w d < 86400" using that by blast
    then show "fst (?f d) < fst (?f (d + 1))"
      by (simp add: day_window_def strftime_s_def algebra_simps)
  qed
  moreover have "contiguous ?ws"
    if "\<forall>d. period \<le> d \<and> d < utc_today s \<longrightarrow> utcoffset w (d + 1) = utcoffset w d"
  proof (rule contiguous_map_upto, intro allI impI)
    fix d assume "period \<le> d \<and> d < utc_today s"
    then have "utcoffset w (d + 1) = utcoffset w d" using that by blast
    then show "snd (?f d) = fst (?f (d + 1))"
      by (simp add: day_window_def strftime_s_def algebra_simps)
  qed
  ultimately show ?thesis by blast
qed

theorem day_windows_enumeration_witness:
  "parse_start_date ''2020-01-01'' = Inr 737425
   \<and> 737425 \<le> utc_today (fresh ''u'' ''p'' jan_3_2020_10h)
   \<and> day_windows (enabled_world (ok rows_body)) (fresh ''u'' ''p'' jan_3_2020_10h) ''2020-01-01''
       = Inr [(1577836800, 1577923200), (1577923200, 1578009600), (1578009600, 1578096000)]
   \<and> (\<exists>ws. day_windows (enabled_world (ok rows_body)) (fresh ''u'' ''p'' jan_3_2020_10h)
              ''2020-01-01'' = Inr ws
          \<and> int (length ws) = 3 \<and> list_all day_wide ws \<and> ascending ws \<and> contiguous ws)"
proof -
  let ?w = "enabled_world (ok rows_body)"
  let ?s = "fresh ''u'' ''p'' jan_3_2020_10h"
  have t: "utc_today ?s = 737427"
    by (simp add: utc_today_def fresh_def jan_3_2020_10h_def EPOCH_ORDINAL_def)
  have le: "737425 \<le> utc_today ?s" by (simp add: t)
  have u: "[737425..737427] = [737425, 737426, 737427]"
    by (simp add: upto.simps)
  have d: "day_windows ?w ?s ''2020-01-01''
             = Inr [(1577836800, 1577923200), (1577923200, 1578009600), (1578009600, 1578096000)]"
    by (simp add: day_windows_eq [OF parse_2020_01_01] t u strftime_s_def day_window_def
        demo_world_def EPOCH_ORDINAL_def)
  have o: "utcoffset ?w d = 0" for d by (simp add: demo_world_def)
  have "\<exists>ws. day_windows ?w ?s ''2020-01-01'' = Inr ws
          \<and> int (length ws) = 3 \<and> list_all day_wide ws \<and> ascending ws \<and> contiguous ws"
    using day_windows_enumeration [OF parse_2020_01_01 le, of ?w] by (simp add: o t)
  then show ?thesis
    using parse_2020_01_01 le d by blast
qed

subsection \<open>Login\<close>

lemma login_bad_status:
  assumes "\<not> is_success (status_code (reply w (length (sent s)) (login_request s)))"
  shows "fst (login w s) =
           Inl (HTTPStatusError (status_code (reply w (length (sent s)) (login_request s))))"
  using assms
  by (simp add: login_def send_def raise_for_status_def Let_def split: prod.splits)

lemma login_good_status:
  assumes "is_success (status_code (reply w (length (sent s)) (login_request s)))"
    and "content (reply w (length (sent s)) (login_request s)) = Some body"
    and "dict_get body ''data'' (JObj []) = Inr (JObj d)"
  shows "fst (login w s) = Inr ()"
    and "cookies (snd (login w s)) =
           [(''sessionid'', case map_of d ''sessionid'' of None \<Rightarrow> JNull | Some v \<Rightarrow> v)]"
  using assms
  by (simp_all add: login_def send_def raise_for_status_def json_body_def Let_def
           split: prod.splits)

text \<open>
  C6, as the claim states it, fails: nothing in \<open>_login\<close> looks whether a session
  id came back. Here a login answered with status 200 and the body
  \<open>{data: {}}\<close>: the method returns, the cookie \<open>sessionid\<close> holds None, and the
  constructor goes on to ask for the rate limit.
\<close>

theorem login_without_session_token_succeeds:
  "fst (login (demo_world (ok (JObj [(''data'', JObj [])])) (ok (rate_body True 60)) (ok rows_body))
          (fresh ''u'' ''p'' jan_3_2020_10h)) = Inr ()
   \<and> cookies (snd (login (demo_world (ok (JObj [(''data'', JObj [])])) (ok (rate_body True 60)) (ok rows_body))
          (fresh ''u'' ''p'' jan_3_2020_10h))) = [(''sessionid'', JNull)]
   \<and> fst (init (demo_world (ok (JObj [(''data'', JObj [])])) (ok (rate_body True 60)) (ok rows_body))
          ''u'' ''p'' jan_3_2020_10h) = Inr ()"
  by (simp add: client_defs demo_defs)

text \<open>
  C6, amended. Given a login response whose body is a JSON object with \<open>data\<close>
  absent or an object, \<open>_login\<close> fails exactly when the status is outside 2xx, and
  then with the HTTP status error. On a 2xx response the value under
  \<open>sessionid\<close> is stored as the session cookie, None when it is missing, and the
  next request carries that cookie.
\<close>

theorem login_fails_exactly_on_bad_status:
  assumes "content (reply w (length (sent s)) (login_request s)) = Some body"
    and "dict_get body ''data'' (JObj []) = Inr (JObj d)"
  shows "isl (fst (login w s))
           = (\<not> is_success (status_code (reply w (length (sent s)) (login_request s))))
       \<and> (\<not> is_success (status_code (reply w (length (sent s)) (login_request s)))
            \<longrightarrow> fst (login w s) =
                 Inl (HTTPStatusError (status_code (reply w (length (sent s)) (login_request s)))))
       \<and> (is_success (status_code (reply w (length (sent s)) (login_request s)))
            \<longrightarrow> cookies (snd (login w s)) =
                   [(''sessionid'', case map_of d ''sessionid'' of None \<Rightarrow> JNull | Some v \<Rightarrow> v)]
              \<and> cookie (rate_limit_request (snd (login w s))) = cookies (snd (login w s)))"
proof (cases "is_success (status_code (reply w (length (sent s)) (login_request s)))")
  case True
  then show ?thesis
    using login_good_status [OF True assms] by (simp add: rate_limit_request_def)
next
  case False
  then show ?thesis
    using login_bad_status [OF False] by simp
qed

theorem login_fails_exactly_on_bad_status_witness:
  "\<not> isl (fst (login (enabled_world (ok rows_body)) (fresh ''u'' ''p'' jan_3_2020_10h)))
   \<and> cookies (snd (login (enabled_world (ok rows_body)) (fresh ''u'' ''p'' jan_3_2020_10h)))
       = [(''sessionid'', JStr ''abc'')]
   \<and> fst (login (demo_world \<lparr>status_code = 401, content = Some (JObj [])\<rparr>
                   (ok (rate_body True 60)) (ok rows_body)) (fresh ''u'' ''p'' jan_3_2020_10h))
       = Inl (HTTPStatusError 401)"
proof -
  let ?w = "enabled_world (ok rows_body)"
  let ?v = "demo_world \<lparr>status_code = 401, content = Some (JObj [])\<rparr>
              (ok (rate_body True 60)) (ok rows_body)"
  let ?s = "fresh ''u'' ''p'' jan_3_2020_10h"
  have l: "length (sent ?s) = 0" by (simp add: fresh_def)
  have r: "reply ?w 0 rq = \<lparr>status_code = 200, content = Some session_body\<rparr>"
    "reply ?v 0 rq = \<lparr>status_code = 401, content = Some (JObj [])\<rparr>" for rq
    by (simp_all add: demo_world_def ok_def)
  have c: "content (reply ?w (length (sent ?s)) (login_request ?s)) = Some session_body"
    and c': "content (reply ?v (length (sent ?s)) (login_request ?s)) = Some (JObj [])"
    by (simp_all add: l r)
  have d: "dict_get session_body ''data'' (JObj []) = Inr (JObj [(''sessionid'', JStr ''abc'')])"
    and d': "dict_get (JObj []) ''data'' (JObj []) = Inr (JObj [])"
    by (simp_all add: session_body_def)
  have g: "is_success (status_code (reply ?w (length (sent ?s)) (login_request ?s)))"
    and b: "status_code (reply ?v (length (sent ?s)) (login_request ?s)) = 401"
    by (simp_all add: l r is_success_def)
  have "\<not> isl (fst (login ?w ?s))"
    and "cookies (snd (login ?w ?s)) = [(''sessionid'', JStr ''abc'')]"
    using login_fails_exactly_on_bad_status [OF c d] g by simp_all
  moreover have "fst (login ?v ?s) = Inl (HTTPStatusError 401)"
    using login_fails_exactly_on_bad_status [OF c' d'] b by (simp add: is_success_def)
  ultimately show ?thesis by simp
qed

end
